theory Spec2Isabelle
  imports Main
begin

section \<open>JavaScript values used by the bridge\<close>

text \<open>
  The bridge between the Electron main process and the MCP provider process exists in two
  versions: the file with \<open>initializeMCPServer\<close> and the readiness wait (called the
  bridge below) and \<open>app/src/main.js\<close> (definitions prefixed \<open>app_\<close>).

  A value produced by \<open>JSON.parse\<close> is a \<open>json\<close>; \<open>undefined\<close> is \<open>None\<close> of
  \<open>json option\<close>. Numbers are the integers (request ids are integers). Text is
  \<open>string\<close>; a chunk is the text \<open>data.toString()\<close> yields for one \<open>data\<close> event.
  \<open>JSON.parse\<close> is a builtin and not part of the repository: the functions below take it
  as the parameter \<open>parse\<close>, where \<open>None\<close> is the thrown SyntaxError.
\<close>

datatype json =
    JNull
  | JBool bool
  | JNum int
  | JStr string
  | JArr "json list"
  | JObj "(string \<times> json) list"

text \<open>
  \<open>v.k\<close> for a value \<open>v\<close> that is not \<open>null\<close> and a key among \<open>id\<close>, \<open>error\<close>,
  \<open>result\<close>, \<open>message\<close>, \<open>data\<close>, \<open>content\<close>, \<open>text\<close>: only an object has such a
  property (an object from \<open>JSON.parse\<close> has each key once). On \<open>null\<close> the access
  throws a TypeError, which every caller below handles before it reads a property.
\<close>

fun field :: "json \<Rightarrow> string \<Rightarrow> json option" where
  "field (JObj kvs) k = map_of kvs k"
| "field _ k = None"

fun truthy :: "json option \<Rightarrow> bool" where
  "truthy None = False"
| "truthy (Some JNull) = False"
| "truthy (Some (JBool b)) = b"
| "truthy (Some (JNum n)) = (n \<noteq> 0)"
| "truthy (Some (JStr s)) = (s \<noteq> [])"
| "truthy (Some (JArr xs)) = True"
| "truthy (Some (JObj kvs)) = True"

text \<open>\<open>a || b\<close> where \<open>b\<close> is a value.\<close>

definition or_else :: "json option \<Rightarrow> json \<Rightarrow> json" where
  "or_else a b = (case a of None \<Rightarrow> b | Some v \<Rightarrow> if truthy (Some v) then v else b)"

text \<open>\<open>a?.f\<close>: \<open>undefined\<close> when \<open>a\<close> is \<open>undefined\<close> or \<open>null\<close>.\<close>

definition chain :: "json option \<Rightarrow> (json \<Rightarrow> json option) \<Rightarrow> json option" where
  "chain a f = (case a of None \<Rightarrow> None | Some JNull \<Rightarrow> None | Some v \<Rightarrow> f v)"

text \<open>\<open>v[0]\<close> for a value that is not \<open>null\<close>.\<close>

fun index0 :: "json \<Rightarrow> json option" where
  "index0 (JArr xs) = (case xs of [] \<Rightarrow> None | x # _ \<Rightarrow> Some x)"
| "index0 (JStr s) = (case s of [] \<Rightarrow> None | c # _ \<Rightarrow> Some (JStr [c]))"
| "index0 (JObj kvs) = map_of kvs ''0''"
| "index0 _ = None"

text \<open>
  Errors: \<open>new Error(m)\<close> with a literal message is \<open>Error m\<close>; \<open>new Error(v)\<close> with a
  value taken from a response is \<open>ErrorOf v\<close>; \<open>TypeError\<close> is the error of reading a
  property of \<open>null\<close>. A promise settles once: \<open>resolve\<close> and \<open>reject\<close> on a settled
  promise do nothing.
\<close>

datatype error = Error string | ErrorOf "json option" | TypeError

datatype promise = Pending | Resolved "json option" | Rejected error

definition settle :: "promise \<Rightarrow> promise \<Rightarrow> promise" where
  "settle p q = (if p = Pending then q else p)"

section \<open>Text: \<open>split("\n")\<close>, \<open>trim()\<close>, \<open>includes\<close>\<close>

definition nl :: char where
  "nl = CHR 0x0A"

text \<open>\<open>s.split("\n")\<close>: never empty; the last element is what follows the last newline.\<close>

fun split_nl :: "string \<Rightarrow> string list" where
  "split_nl [] = [[]]"
| "split_nl (c # cs) =
     (if c = nl then [] # split_nl cs
      else (case split_nl cs of [] \<Rightarrow> [[c]] | l # ls \<Rightarrow> (c # l) # ls))"

text \<open>The white space and line terminators of \<open>trim()\<close> among the 8-bit characters.\<close>

definition js_space :: "char \<Rightarrow> bool" where
  "js_space c = (of_char c \<in> {9, 10, 11, 12, 13, 32, 160 :: nat})"

definition js_trim :: "string \<Rightarrow> string" where
  "js_trim s = rev (dropWhile js_space (rev (dropWhile js_space s)))"

fun starts_with :: "string \<Rightarrow> string \<Rightarrow> bool" where
  "starts_with s [] = True"
| "starts_with [] (c # t) = False"
| "starts_with (d # s) (c # t) = (d = c \<and> starts_with s t)"

fun js_includes :: "string \<Rightarrow> string \<Rightarrow> bool" where
  "js_includes [] t = (t = [])"
| "js_includes (c # s) t = (starts_with (c # s) t \<or> js_includes s t)"

section \<open>The bridge: state\<close>

text \<open>
  What the bridge writes to the provider's stdin, \<open>JSON.stringify(x) + "\n"\<close>, by the
  object \<open>x\<close>: the \<open>initialize\<close> request (id 0), the \<open>notifications/initialized\<close>
  notification, and a \<open>tools/call\<close> request with its id, tool name and arguments.
\<close>

datatype frame = Initialize | Initialized | ToolsCall int string json

text \<open>
  One invocation of \<open>initializeMCPServer\<close>: its closure variables, its listener on
  stdout, its 10000 ms timer (the delay while the timer is outstanding) and its promise,
  which the banner timer's callback awaits before it sets \<open>serverReady\<close>.
\<close>

record handshake =
  h_responseData :: string
  h_listening :: bool
  h_timeout :: "nat option"
  h_promise :: promise

text \<open>
  One invocation of \<open>callMCPTool\<close>: the wait loop's counter and its outstanding 500 ms
  sleep, the request id once the request object is built, the closure variables of the
  response handler, the listener, the 45000 ms timer, the promise returned to the caller,
  and the exception that left a callback of this invocation uncaught, if any.
\<close>

record call =
  c_toolName :: string
  c_params :: json
  c_attempts :: nat
  c_sleep :: "nat option"
  c_request_id :: "int option"
  c_responseData :: string
  c_isComplete :: bool
  c_listening :: bool
  c_timeout :: "nat option"
  c_promise :: promise
  c_uncaught :: "error option"

text \<open>
  The module: \<open>mcpProcess\<close> (True while the variable holds the process, False when it is
  \<open>null\<close> or \<open>undefined\<close>), \<open>serverReady\<close>, the outstanding 2000 ms banner timers,
  everything written to stdin, and the invocations in the order they were made.
\<close>

record bridge =
  mcpProcess :: bool
  serverReady :: bool
  bannerTimers :: "nat list"
  stdin :: "frame list"
  handshakes :: "handshake list"
  calls :: "call list"

text \<open>The state when \<open>startMCPServer\<close> returns after a successful \<open>spawn\<close>.\<close>

definition startMCPServer :: bridge where
  "startMCPServer =
     \<lparr>mcpProcess = True, serverReady = False, bannerTimers = [], stdin = [],
      handshakes = [], calls = []\<rparr>"

section \<open>The bridge: readiness\<close>

text \<open>The test of the stderr listener on one chunk.\<close>

definition banner :: "string \<Rightarrow> bool" where
  "banner output =
     ((js_includes output ''FastMCP'' \<or> js_includes output ''Starting MCP server'') \<and>
      (js_includes output ''Server name'' \<or> js_includes output ''Echo Test Server'' \<or>
       js_includes output ''Simple Test Server''))"

text \<open>
  \<open>initializeMCPServer\<close> up to its return: without a process the promise is rejected;
  otherwise the timer is started, the listener registered and the request written.
\<close>

definition initializeMCPServer :: "bridge \<Rightarrow> bridge" where
  "initializeMCPServer s =
     (if \<not> mcpProcess s then
        s\<lparr>handshakes := handshakes s @
            [\<lparr>h_responseData = [], h_listening = False, h_timeout = None,
              h_promise = Rejected (Error ''MCP server not running'')\<rparr>]\<rparr>
      else
        s\<lparr>handshakes := handshakes s @
            [\<lparr>h_responseData = [], h_listening = True, h_timeout = Some 10000,
              h_promise = Pending\<rparr>],
          stdin := stdin s @ [Initialize]\<rparr>)"

text \<open>
  The loop of the handshake's \<open>dataHandler\<close> over all lines of the buffer, inside one
  \<open>try\<close>: True when it reaches a response with \<open>id === 0\<close>; a line that does not parse,
  or that parses to \<open>null\<close>, throws and ends the loop.
\<close>

fun init_scan :: "(string \<Rightarrow> json option) \<Rightarrow> string list \<Rightarrow> bool" where
  "init_scan parse [] = False"
| "init_scan parse (l # ls) =
     (let line = js_trim l in
      if line = [] then init_scan parse ls
      else (case parse line of
              None \<Rightarrow> False
            | Some response \<Rightarrow>
                if response = JNull then False
                else if field response ''id'' = Some (JNum 0) then True
                else init_scan parse ls))"

text \<open>
  The handshake's \<open>dataHandler\<close> on one chunk, for one handshake: the new handshake,
  what it wrote to stdin, and whether the awaited promise was resolved by this call (the
  awaiting callback then sets \<open>serverReady\<close>).
\<close>

definition init_dataHandler ::
  "(string \<Rightarrow> json option) \<Rightarrow> string \<Rightarrow> handshake \<Rightarrow> handshake \<times> frame list \<times> bool" where
  "init_dataHandler parse data h =
     (let buf = h_responseData h @ data in
      if init_scan parse (split_nl buf) then
        (h\<lparr>h_responseData := buf, h_timeout := None, h_listening := False,
           h_promise := settle (h_promise h) (Resolved None)\<rparr>,
         [Initialized], h_promise h = Pending)
      else (h\<lparr>h_responseData := buf\<rparr>, [], False))"

text \<open>All registered handshake listeners on one chunk, in the order of registration.\<close>

fun init_handlers ::
  "(string \<Rightarrow> json option) \<Rightarrow> string \<Rightarrow> handshake list \<Rightarrow> handshake list \<times> frame list \<times> bool" where
  "init_handlers parse data [] = ([], [], False)"
| "init_handlers parse data (h # hs) =
     (let (h', w, r) = (if h_listening h then init_dataHandler parse data h else (h, [], False));
          (hs', ws, rs) = init_handlers parse data hs
      in (h' # hs', w @ ws, r \<or> rs))"

section \<open>The bridge: tool calls\<close>

text \<open>The settlement of a call by its matching response.\<close>

definition error_text :: "json \<Rightarrow> json" where
  "error_text e =
     or_else (field e ''message'') (or_else (field e ''data'') (JStr ''Unknown MCP error''))"

definition respond :: "json \<Rightarrow> promise" where
  "respond response =
     (case field response ''error'' of
        None \<Rightarrow> Resolved (field response ''result'')
      | Some e \<Rightarrow>
          if truthy (Some e) then Rejected (ErrorOf (Some (error_text e)))
          else Resolved (field response ''result''))"

text \<open>
  The loop of the call's \<open>dataHandler\<close> over the complete lines, each in its own
  \<open>try\<close>: the first response with \<open>id === request.id\<close>. A line that does not parse, or
  that parses to \<open>null\<close>, is skipped.
\<close>

fun scan :: "(string \<Rightarrow> json option) \<Rightarrow> int \<Rightarrow> string list \<Rightarrow> json option" where
  "scan parse rid [] = None"
| "scan parse rid (l # ls) =
     (let line = js_trim l in
      if line = [] then scan parse rid ls
      else (case parse line of
              None \<Rightarrow> scan parse rid ls
            | Some response \<Rightarrow>
                if response = JNull then scan parse rid ls
                else if field response ''id'' = Some (JNum rid) then Some response
                else scan parse rid ls))"

definition dataHandler :: "(string \<Rightarrow> json option) \<Rightarrow> int \<Rightarrow> string \<Rightarrow> call \<Rightarrow> call" where
  "dataHandler parse rid data c =
     (if c_isComplete c then c
      else
        (let buf = c_responseData c @ data; lines = split_nl buf in
         case scan parse rid (butlast lines) of
           Some response \<Rightarrow>
             c\<lparr>c_responseData := buf, c_isComplete := True, c_timeout := None,
               c_listening := False, c_promise := settle (c_promise c) (respond response)\<rparr>
         | None \<Rightarrow> c\<lparr>c_responseData := last lines\<rparr>))"

text \<open>One chunk for one call: its listener runs when it is registered.\<close>

definition call_data :: "(string \<Rightarrow> json option) \<Rightarrow> string \<Rightarrow> call \<Rightarrow> call" where
  "call_data parse data c =
     (case c_request_id c of
        None \<Rightarrow> c
      | Some rid \<Rightarrow> if c_listening c then dataHandler parse rid data c else c)"

text \<open>
  \<open>Date.now() + Math.floor(Math.random() * 1000)\<close>, from the value of \<open>Date.now()\<close>
  and the value of \<open>Math.floor(Math.random() * 1000)\<close>, an integer from 0 to 999: the
  random number and its product are builtin arithmetic on doubles and come from outside.
\<close>

definition new_request_id :: "int \<Rightarrow> int \<Rightarrow> int" where
  "new_request_id now rnd = now + rnd"

definition maxAttempts :: nat where
  "maxAttempts = 15"

text \<open>
  \<open>callMCPTool\<close> from the test of the wait loop to the next suspension or to its return,
  with the values of \<open>mcpProcess\<close> and \<open>serverReady\<close> at that moment and the clock and
  random values the request would use: the call, and what it wrote to stdin. Without a
  process \<open>mcpProcess.isReady()\<close> throws out of the async executor.
\<close>

definition wait_loop :: "bool \<Rightarrow> bool \<Rightarrow> int \<Rightarrow> int \<Rightarrow> call \<Rightarrow> call \<times> frame list" where
  "wait_loop process ready now rnd c =
     (if \<not> process then (c\<lparr>c_uncaught := Some TypeError\<rparr>, [])
      else if \<not> ready \<and> c_attempts c < maxAttempts then (c\<lparr>c_sleep := Some 500\<rparr>, [])
      else if \<not> ready then
        (c\<lparr>c_promise := settle (c_promise c)
             (Rejected (Error ''MCP server not ready - timeout waiting for initialization''))\<rparr>,
         [])
      else
        (let rid = new_request_id now rnd in
         (c\<lparr>c_request_id := Some rid, c_responseData := [], c_isComplete := False,
            c_timeout := Some 45000, c_listening := True\<rparr>,
          [ToolsCall rid (c_toolName c) (c_params c)])))"

definition new_call :: "string \<Rightarrow> json \<Rightarrow> call" where
  "new_call name args =
     \<lparr>c_toolName = name, c_params = args, c_attempts = 0, c_sleep = None,
      c_request_id = None, c_responseData = [], c_isComplete = False, c_listening = False,
      c_timeout = None, c_promise = Pending, c_uncaught = None\<rparr>"

definition callMCPTool :: "string \<Rightarrow> json \<Rightarrow> int \<Rightarrow> int \<Rightarrow> bridge \<Rightarrow> bridge" where
  "callMCPTool name args now rnd s =
     (if \<not> mcpProcess s then
        s\<lparr>calls := calls s @
            [(new_call name args)\<lparr>c_promise := Rejected (Error ''MCP server not running'')\<rparr>]\<rparr>
      else
        (let (c, w) = wait_loop (mcpProcess s) (serverReady s) now rnd (new_call name args)
         in s\<lparr>calls := calls s @ [c], stdin := stdin s @ w\<rparr>))"

text \<open>The 500 ms sleep of call \<open>i\<close> ends: \<open>attempts++\<close>, then the loop test again.\<close>

definition poll :: "nat \<Rightarrow> int \<Rightarrow> int \<Rightarrow> bridge \<Rightarrow> bridge" where
  "poll i now rnd s =
     (if i < length (calls s) \<and> c_sleep (calls s ! i) \<noteq> None then
        (let c0 = calls s ! i;
             (c, w) = wait_loop (mcpProcess s) (serverReady s) now rnd
                        (c0\<lparr>c_sleep := None, c_attempts := c_attempts c0 + 1\<rparr>)
         in s\<lparr>calls := (calls s)[i := c], stdin := stdin s @ w\<rparr>)
      else s)"

text \<open>
  The 45000 ms timer of call \<open>i\<close> fires. \<open>mcpProcess.stdout.removeListener\<close> comes before
  \<open>reject\<close>: without a process it throws, and the timer callback ends there.
\<close>

definition call_timeout :: "nat \<Rightarrow> bridge \<Rightarrow> bridge" where
  "call_timeout i s =
     (if i < length (calls s) \<and> c_timeout (calls s ! i) \<noteq> None then
        (let c0 = (calls s ! i)\<lparr>c_timeout := None\<rparr>;
             c = (if c_isComplete c0 then c0
                  else if \<not> mcpProcess s then
                    c0\<lparr>c_isComplete := True, c_uncaught := Some TypeError\<rparr>
                  else
                    c0\<lparr>c_isComplete := True, c_listening := False,
                       c_promise := settle (c_promise c0) (Rejected (Error ''MCP call timeout''))\<rparr>)
         in s\<lparr>calls := (calls s)[i := c]\<rparr>)
      else s)"

text \<open>The 10000 ms timer of handshake \<open>i\<close> fires: \<open>reject\<close>, and nothing else.\<close>

definition init_timeout :: "nat \<Rightarrow> bridge \<Rightarrow> bridge" where
  "init_timeout i s =
     (if i < length (handshakes s) \<and> h_timeout (handshakes s ! i) \<noteq> None then
        (let h = handshakes s ! i
         in s\<lparr>handshakes := (handshakes s)[i :=
                h\<lparr>h_timeout := None,
                  h_promise := settle (h_promise h) (Rejected (Error ''MCP initialization timeout''))\<rparr>]\<rparr>)
      else s)"

section \<open>The bridge: events\<close>

text \<open>
  The callbacks the event loop can run, one at a time: a chunk on stderr or stdout, the
  process's \<open>close\<close>, a banner timer, a handshake timer, an invocation of \<open>callMCPTool\<close>,
  the end of a sleep of the wait loop, a call's timer. The invocation and the end of a
  sleep carry the values of \<open>Date.now()\<close> and \<open>Math.floor(Math.random() * 1000)\<close>.
  A timer that is not outstanding does not fire. Chunks arrive only while the process is there
  (\<open>close\<close> comes after the streams have ended). Every call listener runs on every chunk;
  they write nothing, so their order among the handshake listeners does not matter.
\<close>

datatype event =
    StderrData string
  | StdoutData string
  | Close
  | BannerTimeout
  | InitTimeout nat
  | CallMCPTool string json int int
  | PollTimeout nat int int
  | CallTimeout nat

definition stdout_data :: "(string \<Rightarrow> json option) \<Rightarrow> string \<Rightarrow> bridge \<Rightarrow> bridge" where
  "stdout_data parse data s =
     (if \<not> mcpProcess s then s
      else
        (let (hs, ws, r) = init_handlers parse data (handshakes s)
         in s\<lparr>handshakes := hs, stdin := stdin s @ ws,
              serverReady := (serverReady s \<or> r),
              calls := map (call_data parse data) (calls s)\<rparr>))"

fun step :: "(string \<Rightarrow> json option) \<Rightarrow> event \<Rightarrow> bridge \<Rightarrow> bridge" where
  "step parse (StderrData output) s =
     (if mcpProcess s \<and> banner output then s\<lparr>bannerTimers := bannerTimers s @ [2000]\<rparr> else s)"
| "step parse (StdoutData data) s = stdout_data parse data s"
| "step parse Close s = s\<lparr>mcpProcess := False\<rparr>"
| "step parse BannerTimeout s =
     (case bannerTimers s of
        [] \<Rightarrow> s
      | t # ts \<Rightarrow> initializeMCPServer (s\<lparr>bannerTimers := ts\<rparr>))"
| "step parse (InitTimeout i) s = init_timeout i s"
| "step parse (CallMCPTool name args now rnd) s = callMCPTool name args now rnd s"
| "step parse (PollTimeout i now rnd) s = poll i now rnd s"
| "step parse (CallTimeout i) s = call_timeout i s"

fun run :: "(string \<Rightarrow> json option) \<Rightarrow> event list \<Rightarrow> bridge \<Rightarrow> bridge" where
  "run parse [] s = s"
| "run parse (e # es) s = run parse es (step parse e s)"

section \<open>The bridge of \<open>app/src/main.js\<close>\<close>

text \<open>
  This version has no handshake, no readiness wait and no \<open>close\<close> listener. Its
  request id is \<open>Date.now()\<close> and its timer is 30000 ms. \<open>JSON.parse(content)\<close>
  converts a content that is not a string with \<open>String\<close>, a builtin: the parameter
  \<open>str\<close>.
\<close>

record app_call =
  a_request_id :: int
  a_responseData :: string
  a_listening :: bool
  a_timeout :: "nat option"
  a_promise :: promise

record app_bridge =
  a_mcpProcess :: bool
  a_stdin :: "frame list"
  a_calls :: "app_call list"

definition app_startMCPServer :: app_bridge where
  "app_startMCPServer = \<lparr>a_mcpProcess = True, a_stdin = [], a_calls = []\<rparr>"

text \<open>
  \<open>if (response.error)\<close> for a response that is not \<open>null\<close>: the error the promise is
  rejected with, \<open>new Error(response.error.message)\<close>, when the branch is taken.
\<close>

definition app_error :: "json \<Rightarrow> error option" where
  "app_error response =
     (case field response ''error'' of
        None \<Rightarrow> None
      | Some e \<Rightarrow> if truthy (Some e) then Some (ErrorOf (field e ''message'')) else None)"

text \<open>\<open>response.result?.content?.[0]?.text\<close>.\<close>

definition app_content :: "json \<Rightarrow> json option" where
  "app_content response =
     chain (chain (chain (field response ''result'') (\<lambda>v. field v ''content'')) index0)
       (\<lambda>v. field v ''text'')"

text \<open>
  The listener of one call on one chunk: the whole buffer is parsed as one document;
  once it parses, the timer is cleared and the listener removed before the response is
  read. A \<open>null\<close> response, or a content that does not parse, throws after that, and
  the \<open>catch\<close> leaves the promise as it is.
\<close>

definition app_dataHandler ::
  "(string \<Rightarrow> json option) \<Rightarrow> (json \<Rightarrow> string) \<Rightarrow> string \<Rightarrow> app_call \<Rightarrow> app_call" where
  "app_dataHandler parse str data c =
     (let buf = a_responseData c @ data; c1 = c\<lparr>a_responseData := buf\<rparr> in
      case parse buf of
        None \<Rightarrow> c1
      | Some response \<Rightarrow>
          (let c2 = c1\<lparr>a_timeout := None, a_listening := False\<rparr> in
           if response = JNull then c2
           else
             (case app_error response of
                Some err \<Rightarrow> c2\<lparr>a_promise := settle (a_promise c) (Rejected err)\<rparr>
              | None \<Rightarrow>
                  (case app_content response of
                     None \<Rightarrow> c2\<lparr>a_promise := settle (a_promise c) (Resolved (field response ''result''))\<rparr>
                   | Some content \<Rightarrow>
                       if truthy (Some content) then
                         (case parse (case content of JStr t \<Rightarrow> t | _ \<Rightarrow> str content) of
                            None \<Rightarrow> c2
                          | Some parsedContent \<Rightarrow>
                              c2\<lparr>a_promise := settle (a_promise c) (Resolved (Some parsedContent))\<rparr>)
                       else
                         c2\<lparr>a_promise := settle (a_promise c) (Resolved (field response ''result''))\<rparr>))))"

definition app_callMCPTool :: "string \<Rightarrow> json \<Rightarrow> int \<Rightarrow> app_bridge \<Rightarrow> app_bridge" where
  "app_callMCPTool name args now s =
     (if \<not> a_mcpProcess s then
        s\<lparr>a_calls := a_calls s @
            [\<lparr>a_request_id = now, a_responseData = [], a_listening = False, a_timeout = None,
              a_promise = Rejected (Error ''MCP server not running'')\<rparr>]\<rparr>
      else
        s\<lparr>a_calls := a_calls s @
            [\<lparr>a_request_id = now, a_responseData = [], a_listening = True,
              a_timeout = Some 30000, a_promise = Pending\<rparr>],
          a_stdin := a_stdin s @ [ToolsCall now name args]\<rparr>)"

text \<open>The 30000 ms timer of call \<open>i\<close> fires: \<open>reject\<close>, and nothing else.\<close>

definition app_call_timeout :: "nat \<Rightarrow> app_bridge \<Rightarrow> app_bridge" where
  "app_call_timeout i s =
     (if i < length (a_calls s) \<and> a_timeout (a_calls s ! i) \<noteq> None then
        (let c = a_calls s ! i
         in s\<lparr>a_calls := (a_calls s)[i :=
                c\<lparr>a_timeout := None,
                  a_promise := settle (a_promise c) (Rejected (Error ''MCP call timeout''))\<rparr>]\<rparr>)
      else s)"

datatype app_event =
    AppStdoutData string
  | AppCallMCPTool string json int
  | AppCallTimeout nat

fun app_step ::
  "(string \<Rightarrow> json option) \<Rightarrow> (json \<Rightarrow> string) \<Rightarrow> app_event \<Rightarrow> app_bridge \<Rightarrow> app_bridge" where
  "app_step parse str (AppStdoutData data) s =
     s\<lparr>a_calls := map (\<lambda>c. if a_listening c then app_dataHandler parse str data c else c) (a_calls s)\<rparr>"
| "app_step parse str (AppCallMCPTool name args now) s = app_callMCPTool name args now s"
| "app_step parse str (AppCallTimeout i) s = app_call_timeout i s"

fun app_run ::
  "(string \<Rightarrow> json option) \<Rightarrow> (json \<Rightarrow> string) \<Rightarrow> app_event list \<Rightarrow> app_bridge \<Rightarrow> app_bridge" where
  "app_run parse str [] s = s"
| "app_run parse str (e # es) s = app_run parse str es (app_step parse str e s)"

section \<open>Traces\<close>

text \<open>The \<open>tools/call\<close> requests among what was written to stdin.\<close>

fun is_tools_call :: "frame \<Rightarrow> bool" where
  "is_tools_call (ToolsCall rid name args) = True"
| "is_tools_call Initialize = False"
| "is_tools_call Initialized = False"

definition tools_calls :: "frame list \<Rightarrow> frame list" where
  "tools_calls fs = filter is_tools_call fs"

text \<open>The ends of the sleeps of call \<open>i\<close> in a trace.\<close>

fun is_poll :: "nat \<Rightarrow> event \<Rightarrow> bool" where
  "is_poll i (PollTimeout j now rnd) = (j = i)"
| "is_poll i (StderrData output) = False"
| "is_poll i (StdoutData data) = False"
| "is_poll i Close = False"
| "is_poll i BannerTimeout = False"
| "is_poll i (InitTimeout j) = False"
| "is_poll i (CallMCPTool name args now rnd) = False"
| "is_poll i (CallTimeout j) = False"

definition count_polls :: "nat \<Rightarrow> event list \<Rightarrow> nat" where
  "count_polls i evs = length (filter (is_poll i) evs)"

text \<open>
  The process is there and \<open>serverReady\<close> is false in every state of the run of a trace
  from a state, the first and the last included.
\<close>

fun never_ready :: "(string \<Rightarrow> json option) \<Rightarrow> event list \<Rightarrow> bridge \<Rightarrow> bool" where
  "never_ready parse [] s = (mcpProcess s \<and> \<not> serverReady s)"
| "never_ready parse (e # es) s =
     (mcpProcess s \<and> \<not> serverReady s \<and> never_ready parse es (step parse e s))"

text \<open>A stderr chunk that passes the banner test; the \<open>close\<close> of the process.\<close>

fun is_banner :: "event \<Rightarrow> bool" where
  "is_banner (StderrData output) = banner output"
| "is_banner (StdoutData data) = False"
| "is_banner Close = False"
| "is_banner BannerTimeout = False"
| "is_banner (InitTimeout j) = False"
| "is_banner (CallMCPTool name args now rnd) = False"
| "is_banner (PollTimeout j now rnd) = False"
| "is_banner (CallTimeout j) = False"

definition no_banner :: "event list \<Rightarrow> bool" where
  "no_banner evs = (filter is_banner evs = [])"

definition no_close :: "event list \<Rightarrow> bool" where
  "no_close evs = (filter (\<lambda>e. e = Close) evs = [])"

text \<open>
  A trace holds, in this order, a stdout chunk; a banner timer and later a stdout chunk;
  a banner chunk on stderr, later a banner timer, later a stdout chunk.
\<close>

fun data_seen :: "event list \<Rightarrow> bool" where
  "data_seen [] = False"
| "data_seen (e # es) = (case e of StdoutData data \<Rightarrow> True | _ \<Rightarrow> data_seen es)"

fun timer_data_seen :: "event list \<Rightarrow> bool" where
  "timer_data_seen [] = False"
| "timer_data_seen (e # es) = (if e = BannerTimeout then data_seen es else timer_data_seen es)"

fun banner_timer_data_seen :: "event list \<Rightarrow> bool" where
  "banner_timer_data_seen [] = False"
| "banner_timer_data_seen (e # es) =
     (if is_banner e then timer_data_seen es else banner_timer_data_seen es)"

text \<open>Some handshake of the bridge has been resolved.\<close>

definition handshake_resolved :: "bridge \<Rightarrow> bool" where
  "handshake_resolved s = (filter (\<lambda>h. h_promise h = Resolved None) (handshakes s) \<noteq> [])"

text \<open>
  A call suspended in the wait loop below the bound, and a call the wait loop has
  rejected at the bound: neither has built a request.
\<close>

definition waiting :: "call \<Rightarrow> bool" where
  "waiting c =
     (c_promise c = Pending \<and> c_sleep c = Some 500 \<and> c_attempts c < maxAttempts \<and>
      c_request_id c = None \<and> c_timeout c = None \<and> \<not> c_listening c \<and> c_uncaught c = None)"

definition not_ready_rejected :: "call \<Rightarrow> bool" where
  "not_ready_rejected c =
     (c_promise c = Rejected (Error ''MCP server not ready - timeout waiting for initialization'') \<and>
      c_sleep c = None \<and> c_attempts c = maxAttempts \<and>
      c_request_id c = None \<and> c_timeout c = None \<and> \<not> c_listening c \<and> c_uncaught c = None)"

definition all_calls :: "(call \<Rightarrow> bool) \<Rightarrow> bridge \<Rightarrow> bool" where
  "all_calls P s = (filter (\<lambda>c. \<not> P c) (calls s) = [])"

text \<open>Feeding chunks one after the other to the listener of one call.\<close>

fun feed :: "(string \<Rightarrow> json option) \<Rightarrow> int \<Rightarrow> string list \<Rightarrow> call \<Rightarrow> call" where
  "feed parse rid [] c = c"
| "feed parse rid (d # ds) c = feed parse rid ds (dataHandler parse rid d c)"

text \<open>
  A call that sleeps in the wait loop has not built its request and is not settled.
\<close>

definition sleeping_ok :: "call \<Rightarrow> bool" where
  "sleeping_ok c =
     (c_sleep c = None \<or>
      (c_promise c = Pending \<and> c_timeout c = None \<and> \<not> c_listening c \<and> c_request_id c = None))"

section \<open>Sample frames\<close>

text \<open>
  Lines a provider sends, with the values \<open>JSON.parse\<close> gives for them, and
  \<open>JSON.parse\<close> on the texts the examples below pass to it: it skips the white space of
  JSON around a document, and no other text of the examples is a JSON document.
\<close>

definition init_ok :: string where
  \<open>init_ok = ''{"jsonrpc":"2.0","id":0,"result":{}}''\<close>

definition init_error :: string where
  \<open>init_error = ''{"jsonrpc":"2.0","id":0,"error":{"code":-32602,"message":"Unsupported protocol version"}}''\<close>

definition emails_ok :: string where
  \<open>emails_ok = ''{"jsonrpc":"2.0","id":1700000000500,"result":{"emails":[]}}''\<close>

definition events_ok :: string where
  \<open>events_ok = ''{"jsonrpc":"2.0","id":1700000000750,"result":{"events":[]}}''\<close>

definition sample_frames :: "(string \<times> json) list" where
  "sample_frames =
     [(init_ok, JObj [(''jsonrpc'', JStr ''2.0''), (''id'', JNum 0), (''result'', JObj [])]),
      (init_error,
       JObj [(''jsonrpc'', JStr ''2.0''), (''id'', JNum 0),
             (''error'', JObj [(''code'', JNum (- 32602)),
                               (''message'', JStr ''Unsupported protocol version'')])]),
      (emails_ok,
       JObj [(''jsonrpc'', JStr ''2.0''), (''id'', JNum 1700000000500),
             (''result'', JObj [(''emails'', JArr [])])]),
      (events_ok,
       JObj [(''jsonrpc'', JStr ''2.0''), (''id'', JNum 1700000000750),
             (''result'', JObj [(''events'', JArr [])])])]"

definition json_space :: "char \<Rightarrow> bool" where
  "json_space c = (of_char c \<in> {9, 10, 13, 32 :: nat})"

definition parse_sample :: "string \<Rightarrow> json option" where
  "parse_sample text =
     map_of sample_frames (rev (dropWhile json_space (rev (dropWhile json_space text))))"

definition fastmcp_banner :: string where
  "fastmcp_banner = ''Starting MCP server - Server name: google-services''"

definition log_line :: string where
  "log_line = ''INFO:     Started server process''"

text \<open>
  The bridge after the banner, the banner timer and the handshake's answer: ready.
\<close>

definition ready_trace :: "event list" where
  "ready_trace = [StderrData fastmcp_banner, BannerTimeout, StdoutData (init_ok @ [nl])]"

definition get_recent_emails :: "int \<Rightarrow> int \<Rightarrow> event" where
  "get_recent_emails now rnd =
     CallMCPTool ''get_recent_emails'' (JObj [(''maxResults'', JNum 50)]) now rnd"

definition get_upcoming_events :: "int \<Rightarrow> int \<Rightarrow> event" where
  "get_upcoming_events now rnd =
     CallMCPTool ''get_upcoming_events'' (JObj [(''days'', JNum 7)]) now rnd"

text \<open>Fourteen and fifteen ends of the sleep of call 0, 500 ms apart.\<close>

definition fourteen_polls :: "event list" where
  "fourteen_polls =
     map (\<lambda>k. PollTimeout 0 (1700000000000 + 500 * k) 500)
       [1, 2, 3, 4, 5, 6, 7, 8, 9, 10, 11, 12, 13, 14]"

definition fifteen_polls :: "event list" where
  "fifteen_polls =
     map (\<lambda>k. PollTimeout 0 (1700000000000 + 500 * k) 500)
       [1, 2, 3, 4, 5, 6, 7, 8, 9, 10, 11, 12, 13, 14, 15]"

section \<open>Evaluation\<close>

lemmas bridge_defs = startMCPServer_def banner_def initializeMCPServer_def stdout_data_def
  init_dataHandler_def dataHandler_def call_data_def callMCPTool_def wait_loop_def new_call_def
  poll_def call_timeout_def init_timeout_def new_request_id_def maxAttempts_def settle_def
  respond_def error_text_def or_else_def js_trim_def js_space_def nl_def

lemmas app_defs = app_startMCPServer_def app_dataHandler_def app_callMCPTool_def
  app_call_timeout_def app_error_def app_content_def chain_def settle_def nl_def

lemmas sample_defs = init_ok_def init_error_def emails_ok_def events_ok_def sample_frames_def
  json_space_def parse_sample_def fastmcp_banner_def log_line_def ready_trace_def
  get_recent_emails_def get_upcoming_events_def

section \<open>Steps and runs of the bridge\<close>

lemma init_handlers_length: "length (fst (init_handlers parse data hs)) = length hs"
  by (induction hs) (auto split: prod.splits)

lemma step_calls_length: "length (calls s) \<le> length (calls (step parse e s))"
  by (cases e)
     (auto simp: stdout_data_def initializeMCPServer_def init_timeout_def callMCPTool_def
        poll_def call_timeout_def Let_def split: prod.splits list.splits)

lemma wait_loop_not_ready:
  "\<not> ready \<Longrightarrow> snd (wait_loop process ready now rnd c) = []"
  by (simp add: wait_loop_def)

lemma step_process: "\<not> mcpProcess s \<Longrightarrow> \<not> mcpProcess (step parse e s)"
  by (cases e)
     (auto simp: stdout_data_def initializeMCPServer_def init_timeout_def callMCPTool_def
        poll_def call_timeout_def Let_def split: prod.splits list.splits)

lemma run_process: "\<not> mcpProcess s \<Longrightarrow> \<not> mcpProcess (run parse evs s)"
  by (induction evs arbitrary: s) (auto simp: step_process)

text \<open>A call without listener and timer changes only when its own sleep ends.\<close>

lemma step_call_unchanged:
  assumes "i < length (calls s)" "\<not> c_listening (calls s ! i)" "c_timeout (calls s ! i) = None"
    and "c_sleep (calls s ! i) = None \<or> \<not> is_poll i e"
  shows "calls (step parse e s) ! i = calls s ! i"
  using assms
  by (cases e)
     (auto simp: stdout_data_def initializeMCPServer_def init_timeout_def callMCPTool_def
        poll_def call_timeout_def call_data_def Let_def nth_append nth_list_update
        split: prod.splits list.splits option.splits)

lemma run_call_unchanged:
  assumes "i < length (calls s)" "\<not> c_listening (calls s ! i)" "c_timeout (calls s ! i) = None"
    and "c_sleep (calls s ! i) = None \<or> count_polls i evs = 0"
  shows "calls (run parse evs s) ! i = calls s ! i \<and> i < length (calls (run parse evs s))"
  using assms
proof (induction evs arbitrary: s)
  case Nil
  then show ?case by simp
next
  case (Cons e es)
  have np: "c_sleep (calls s ! i) = None \<or> \<not> is_poll i e"
    using Cons.prems(4) by (auto simp: count_polls_def split: if_splits)
  have same: "calls (step parse e s) ! i = calls s ! i"
    using step_call_unchanged [OF Cons.prems(1-3) np] .
  have len: "i < length (calls (step parse e s))"
    using Cons.prems(1) step_calls_length [of s parse e] by simp
  have rest: "c_sleep (calls s ! i) = None \<or> count_polls i es = 0"
    using Cons.prems(4) by (auto simp: count_polls_def split: if_splits)
  show ?case
    using Cons.IH [of "step parse e s"] same len rest Cons.prems(2,3) by simp
qed

text \<open>While \<open>serverReady\<close> is false no step writes a \<open>tools/call\<close> request.\<close>

lemma init_handlers_writes: "tools_calls (fst (snd (init_handlers parse data hs))) = []"
  by (induction hs) (auto simp: tools_calls_def init_dataHandler_def Let_def split: prod.splits)

lemma step_tools_calls:
  "\<not> serverReady s \<Longrightarrow> tools_calls (stdin (step parse e s)) = tools_calls (stdin s)"
proof (cases e)
  case (StdoutData data)
  assume "\<not> serverReady s"
  show ?thesis
    using init_handlers_writes [of parse data "handshakes s"]
    by (auto simp: StdoutData stdout_data_def tools_calls_def split: prod.splits)
next
  case (CallMCPTool name args now rnd)
  assume "\<not> serverReady s"
  then show ?thesis
    by (auto simp: CallMCPTool callMCPTool_def wait_loop_def tools_calls_def)
next
  case (PollTimeout i now rnd)
  assume "\<not> serverReady s"
  then show ?thesis
    by (auto simp: PollTimeout poll_def wait_loop_def tools_calls_def Let_def)
qed (auto simp: initializeMCPServer_def init_timeout_def call_timeout_def tools_calls_def Let_def
       split: list.splits)

lemma run_tools_calls:
  "never_ready parse evs s \<Longrightarrow> tools_calls (stdin (run parse evs s)) = tools_calls (stdin s)"
proof (induction evs arbitrary: s)
  case Nil
  then show ?case by simp
next
  case (Cons e es)
  then show ?case using step_tools_calls [of s parse e] by simp
qed

lemma poll_waiting:
  assumes "i < length (calls s)" "waiting (calls s ! i)" "mcpProcess s" "\<not> serverReady s"
  shows "let c = calls (step parse (PollTimeout i now rnd) s) ! i in
           c_attempts c = Suc (c_attempts (calls s ! i)) \<and>
           (if Suc (c_attempts (calls s ! i)) < maxAttempts then waiting c
            else not_ready_rejected c)"
  using assms
  by (auto simp: poll_def wait_loop_def waiting_def not_ready_rejected_def settle_def Let_def)

lemma wait_run:
  assumes "never_ready parse evs s" "i < length (calls s)" "waiting (calls s ! i)"
  shows "let c = calls (run parse evs s) ! i; k = c_attempts (calls s ! i) + count_polls i evs in
           if k < maxAttempts then waiting c \<and> c_attempts c = k else not_ready_rejected c"
  using assms
proof (induction evs arbitrary: s)
  case Nil
  then show ?case by (simp add: count_polls_def waiting_def)
next
  case (Cons e es)
  let ?s = "step parse e s"
  have nr: "never_ready parse es ?s" and p: "mcpProcess s" and r: "\<not> serverReady s"
    using Cons.prems(1) by simp_all
  have len: "i < length (calls ?s)"
    using Cons.prems(2) step_calls_length [of s parse e] by simp
  have idle: "\<not> c_listening (calls s ! i)" "c_timeout (calls s ! i) = None"
    using Cons.prems(3) by (simp_all add: waiting_def)
  show ?case
  proof (cases "is_poll i e")
    case False
    have same: "calls ?s ! i = calls s ! i"
      using step_call_unchanged [OF Cons.prems(2) idle] False by simp
    have cnt: "count_polls i (e # es) = count_polls i es"
      using False by (simp add: count_polls_def)
    show ?thesis
      using Cons.IH [OF nr len] same Cons.prems(3) cnt by simp
  next
    case True
    then obtain now rnd where e: "e = PollTimeout i now rnd"
      by (cases e) auto
    have cnt: "count_polls i (e # es) = Suc (count_polls i es)"
      using True by (simp add: count_polls_def)
    note pw = poll_waiting [OF Cons.prems(2,3) p r, of parse now rnd, unfolded Let_def, folded e]
    show ?thesis
    proof (cases "Suc (c_attempts (calls s ! i)) < maxAttempts")
      case True
      then have w: "waiting (calls ?s ! i)" and a: "c_attempts (calls ?s ! i) = Suc (c_attempts (calls s ! i))"
        using pw by simp_all
      show ?thesis
        using Cons.IH [OF nr len w] a cnt by simp
    next
      case False
      then have rj: "not_ready_rejected (calls ?s ! i)"
        using pw by simp
      then have "calls (run parse es ?s) ! i = calls ?s ! i"
        using run_call_unchanged [of i "?s" es parse] len by (simp add: not_ready_rejected_def)
      then show ?thesis
        using rj False cnt by simp
    qed
  qed
qed


section \<open>Concurrent calls\<close>

text \<open>
  C1. Each of N concurrent calls is to settle once, with the payload of the response
  whose id is its request id, never with the response of another pending call. In
  \<open>app/src/main.js\<close> the listener of a call does not look at the id: with the calls
  1700000000500 and 1700000000750 pending, the response to 1700000000750 settles both, and
  the first caller receives the events. In the bridge the listener compares the ids, but
  two calls made in the same millisecond with the same random draw have the same id:
  the response to the first settles both, and the second caller receives the emails.
\<close>

theorem concurrent_calls_share_response:
  "(let s = app_run parse_sample str
              [AppCallMCPTool ''get_recent_emails'' (JObj [(''maxResults'', JNum 50)]) 1700000000500,
               AppCallMCPTool ''get_upcoming_events'' (JObj [(''days'', JNum 7)]) 1700000000750,
               AppStdoutData (events_ok @ [nl])]
              app_startMCPServer
    in a_request_id (a_calls s ! 0) = 1700000000500 \<and>
       a_promise (a_calls s ! 0) = Resolved (Some (JObj [(''events'', JArr [])])) \<and>
       a_request_id (a_calls s ! 1) = 1700000000750 \<and>
       a_promise (a_calls s ! 1) = Resolved (Some (JObj [(''events'', JArr [])]))) \<and>
   (let s = run parse_sample
              (ready_trace @
               [get_recent_emails 1700000000000 500, get_upcoming_events 1700000000000 500,
                StdoutData (emails_ok @ [nl])])
              startMCPServer
    in c_toolName (calls s ! 0) = ''get_recent_emails'' \<and>
       c_promise (calls s ! 0) = Resolved (Some (JObj [(''emails'', JArr [])])) \<and>
       c_toolName (calls s ! 1) = ''get_upcoming_events'' \<and>
       c_promise (calls s ! 1) = Resolved (Some (JObj [(''emails'', JArr [])])) \<and>
       \<not> c_listening (calls s ! 1))"
  by (simp add: app_defs bridge_defs sample_defs)

section \<open>Decoding\<close>

text \<open>
  C3. Decoding is to give the same frames however the stream is cut into chunks, and the
  buffer is to hold only the trailing fragment after a pass. In \<open>app/src/main.js\<close> the
  listener parses the whole buffer as one document. With two calls pending, their two
  response lines in one chunk are never decoded and stay in the buffers, and both calls
  stay pending; the same lines in two chunks are decoded.
\<close>

theorem app_decoding_depends_on_chunks:
  "let two_calls =
         [AppCallMCPTool ''get_recent_emails'' (JObj [(''maxResults'', JNum 50)]) 1700000000500,
          AppCallMCPTool ''get_upcoming_events'' (JObj [(''days'', JNum 7)]) 1700000000750];
       whole = app_run parse_sample str
                 (two_calls @ [AppStdoutData (emails_ok @ [nl] @ events_ok @ [nl])])
                 app_startMCPServer;
       split = app_run parse_sample str
                 (two_calls @ [AppStdoutData (emails_ok @ [nl]), AppStdoutData (events_ok @ [nl])])
                 app_startMCPServer
   in a_promise (a_calls whole ! 0) = Pending \<and> a_promise (a_calls whole ! 1) = Pending \<and>
      a_responseData (a_calls whole ! 0) = emails_ok @ [nl] @ events_ok @ [nl] \<and>
      a_promise (a_calls split ! 0) = Resolved (Some (JObj [(''emails'', JArr [])]))"
  by (simp add: app_defs sample_defs)

text \<open>
  The handshake's listener of the bridge does not shorten its buffer either: after a
  pass over a complete line that is not the answer, the line is still there.
\<close>

lemma handshake_keeps_complete_line:
  "h_responseData (handshakes (run parse_sample
      [StderrData fastmcp_banner, BannerTimeout, StdoutData (log_line @ [nl])] startMCPServer) ! 0) =
   log_line @ [nl]"
  by (simp add: bridge_defs sample_defs)

section \<open>The handshake\<close>

text \<open>
  C4. The handshake is to reach Ready only on a response to id 0 without an error, and to
  fail on a response to id 0 with an error. \<open>initializeMCPServer\<close> does not read
  \<open>response.error\<close>: on an error response to id 0 it sends the \<open>initialized\<close>
  notification and resolves, and \<open>serverReady\<close> becomes true.
\<close>

theorem handshake_error_response_sets_ready:
  "let s = run parse_sample
             [StderrData fastmcp_banner, BannerTimeout, StdoutData (init_error @ [nl])]
             startMCPServer
   in serverReady s \<and> stdin s = [Initialize, Initialized] \<and>
      h_promise (handshakes s ! 0) = Resolved None"
  by (simp add: bridge_defs sample_defs)

text \<open>
  C5. A line that does not parse is to be dropped without keeping later lines from being
  handled. The handshake's listener has one \<open>try\<close> around its loop and never shortens its
  buffer: a log line before the answer to \<open>initialize\<close> ends the loop on every chunk,
  the answer is never seen and \<open>serverReady\<close> stays false, where the answer alone makes
  the bridge ready.
\<close>

theorem handshake_blocked_by_log_line:
  "let s = run parse_sample
             [StderrData fastmcp_banner, BannerTimeout,
              StdoutData (log_line @ [nl] @ init_ok @ [nl]), StdoutData (init_ok @ [nl])]
             startMCPServer
   in \<not> serverReady s \<and> stdin s = [Initialize] \<and> h_promise (handshakes s ! 0) = Pending \<and>
      serverReady (run parse_sample ready_trace startMCPServer)"
  by (simp add: bridge_defs sample_defs)

section \<open>Request ids\<close>

text \<open>
  C6. Two calls pending at the same time are to have different ids. The id of the bridge
  is the clock plus a random number below 1000 and is not compared with the pending ids:
  a call at 1700000000000 drawing 500 and a call at 1700000000250 drawing 250 are pending
  together with the id 1700000000500, and the first response to that id settles both. In
  \<open>app/src/main.js\<close> the id is the clock alone: two calls in one millisecond share it.
\<close>

theorem request_id_collision:
  "(let s = run parse_sample
              (ready_trace @
               [get_recent_emails 1700000000000 500, get_upcoming_events 1700000000250 250])
              startMCPServer;
        s' = step parse_sample (StdoutData (emails_ok @ [nl])) s
    in c_request_id (calls s ! 0) = Some 1700000000500 \<and> c_promise (calls s ! 0) = Pending \<and>
       c_request_id (calls s ! 1) = Some 1700000000500 \<and> c_promise (calls s ! 1) = Pending \<and>
       c_promise (calls s' ! 0) = Resolved (Some (JObj [(''emails'', JArr [])])) \<and>
       c_promise (calls s' ! 1) = Resolved (Some (JObj [(''emails'', JArr [])]))) \<and>
   (let s = app_run parse_sample str
              [AppCallMCPTool ''get_recent_emails'' (JObj [(''maxResults'', JNum 50)]) 1700000000500,
               AppCallMCPTool ''get_upcoming_events'' (JObj [(''days'', JNum 7)]) 1700000000500]
              app_startMCPServer
    in a_request_id (a_calls s ! 0) = 1700000000500 \<and> a_promise (a_calls s ! 0) = Pending \<and>
       a_request_id (a_calls s ! 1) = 1700000000500 \<and> a_promise (a_calls s ! 1) = Pending)"
  by (simp add: app_defs bridge_defs sample_defs)

section \<open>Timeouts and the end of the process\<close>

text \<open>
  C8. A call whose timer fires before its response is to fail with the timeout error, and
  its listener is to be removed. In the bridge, when the process has closed in between,
  \<open>mcpProcess\<close> is \<open>null\<close> and the timer callback throws at \<open>mcpProcess.stdout\<close>
  before \<open>reject\<close>: the call is marked complete and its promise stays pending. In
  \<open>app/src/main.js\<close> the timer callback rejects and leaves the listener registered.
\<close>

theorem call_timeout_after_close_never_rejects:
  "(let c = calls (run parse_sample
                    (ready_trace @ [get_recent_emails 1700000000000 500, Close, CallTimeout 0])
                    startMCPServer) ! 0
    in c_promise c = Pending \<and> c_isComplete c \<and> c_timeout c = None \<and>
       c_uncaught c = Some TypeError) \<and>
   (let c = a_calls (app_run parse_sample str
                      [AppCallMCPTool ''get_recent_emails'' (JObj [(''maxResults'', JNum 50)])
                         1700000000500,
                       AppCallTimeout 0]
                      app_startMCPServer) ! 0
    in a_promise c = Rejected (Error ''MCP call timeout'') \<and> a_listening c)"
  by (simp add: app_defs bridge_defs sample_defs)

section \<open>The readiness wait\<close>

lemma callMCPTool_waiting:
  assumes "mcpProcess s" "\<not> serverReady s"
  shows "waiting (calls (step parse (CallMCPTool name args now rnd) s) ! length (calls s))"
    and "c_attempts (calls (step parse (CallMCPTool name args now rnd) s) ! length (calls s)) = 0"
    and "length (calls s) < length (calls (step parse (CallMCPTool name args now rnd) s))"
    and "stdin (step parse (CallMCPTool name args now rnd) s) = stdin s"
  using assms
  by (simp_all add: callMCPTool_def wait_loop_def new_call_def waiting_def maxAttempts_def)

lemma never_ready_first: "never_ready parse evs s \<Longrightarrow> mcpProcess s \<and> \<not> serverReady s"
  by (cases evs) simp_all

text \<open>
  A call made while the process is there and \<open>serverReady\<close> is false, in a run in which
  both stay so: after fewer than 15 ends of its sleep it is still suspended, from the
  fifteenth on it is rejected with the not-ready error, and no request is written.
\<close>

lemma call_while_unready:
  assumes "never_ready parse evs (step parse (CallMCPTool name args now rnd) s0)"
  shows "let s = run parse evs (step parse (CallMCPTool name args now rnd) s0);
             c = calls s ! length (calls s0);
             k = count_polls (length (calls s0)) evs
         in tools_calls (stdin s) = tools_calls (stdin s0) \<and>
            c_request_id c = None \<and> \<not> c_listening c \<and> c_timeout c = None \<and>
            c_attempts c = min k maxAttempts \<and>
            c_sleep c = (if k < maxAttempts then Some 500 else None) \<and>
            c_promise c =
              (if k < maxAttempts then Pending
               else Rejected (Error ''MCP server not ready - timeout waiting for initialization''))"
proof -
  let ?s1 = "step parse (CallMCPTool name args now rnd) s0"
  let ?i = "length (calls s0)"
  have flags1: "mcpProcess ?s1 \<and> \<not> serverReady ?s1"
    using never_ready_first [OF assms] .
  have flags0: "mcpProcess s0" "\<not> serverReady s0"
    using flags1 by (auto simp: callMCPTool_def Let_def split: if_splits prod.splits)
  note start = callMCPTool_waiting [OF flags0, of parse name args now rnd]
  have w: "tools_calls (stdin (run parse evs ?s1)) = tools_calls (stdin s0)"
    using run_tools_calls [OF assms] start(4) by simp
  note wr = wait_run [OF assms start(3) start(1), unfolded Let_def start(2)]
  show ?thesis
  proof (cases "count_polls ?i evs < maxAttempts")
    case True
    then show ?thesis using wr w by (simp add: Let_def waiting_def)
  next
    case False
    then show ?thesis using wr w by (simp add: Let_def not_ready_rejected_def)
  qed
qed

text \<open>
  C7. A call made before the bridge is ready is to sleep 500 ms at a time, at most 15
  times, and to fail with the not-ready error, nothing written, when the bound is
  passed with the bridge still not ready. The wait loop does so while \<open>mcpProcess\<close> is
  set. When the process closes during the fifteenth sleep, the attempts reach the bound
  with \<open>serverReady\<close> false, the test of the loop calls \<open>isReady\<close> on \<open>null\<close> and
  throws, and the promise stays pending instead of being rejected; with the process
  there, the same fifteen sleeps end in the rejection.
\<close>

theorem wait_loop_close_before_bound:
  "(let s = run parse_sample
              (get_recent_emails 1700000000000 500 # fourteen_polls @
               [Close, PollTimeout 0 1700000007500 500])
              startMCPServer;
        c = calls s ! 0
    in \<not> serverReady s \<and> c_attempts c = maxAttempts \<and> c_sleep c = None \<and>
       c_promise c = Pending \<and> c_uncaught c = Some TypeError \<and> stdin s = []) \<and>
   (let s = run parse_sample (get_recent_emails 1700000000000 500 # fifteen_polls) startMCPServer;
        c = calls s ! 0
    in \<not> serverReady s \<and> c_attempts c = maxAttempts \<and> c_sleep c = None \<and>
       c_promise c =
         Rejected (Error ''MCP server not ready - timeout waiting for initialization'') \<and>
       stdin s = [])"
  by (simp add: bridge_defs sample_defs fourteen_polls_def fifteen_polls_def)

lemma call_data_sleep: "c_sleep (call_data parse data c) = c_sleep c"
  by (auto simp: call_data_def dataHandler_def Let_def split: option.splits)

lemma call_data_sleeping_ok: "sleeping_ok c \<Longrightarrow> sleeping_ok (call_data parse data c)"
  by (auto simp: sleeping_ok_def call_data_def dataHandler_def Let_def split: option.splits)

lemma wait_loop_sleeping_ok:
  assumes "c_promise c = Pending" "c_timeout c = None" "\<not> c_listening c" "c_request_id c = None"
    and "c_sleep c = None"
  shows "sleeping_ok (fst (wait_loop process ready now rnd c))"
  using assms by (auto simp: wait_loop_def sleeping_ok_def Let_def)

lemma step_sleeping_ok:
  assumes "\<forall>c \<in> set (calls s). sleeping_ok c"
  shows "\<forall>c \<in> set (calls (step parse e s)). sleeping_ok c"
proof (cases e)
  case (StdoutData data)
  then show ?thesis
    using assms by (auto simp: stdout_data_def call_data_sleeping_ok split: prod.splits)
next
  case (CallMCPTool name args now rnd)
  have "sleeping_ok (fst (wait_loop (mcpProcess s) (serverReady s) now rnd (new_call name args)))"
    by (rule wait_loop_sleeping_ok) (simp_all add: new_call_def)
  then show ?thesis
    using assms
    by (auto simp: CallMCPTool callMCPTool_def sleeping_ok_def new_call_def split: prod.splits)
next
  case (PollTimeout i now rnd)
  show ?thesis
  proof (cases "i < length (calls s) \<and> c_sleep (calls s ! i) \<noteq> None")
    case False
    then show ?thesis using assms by (auto simp: PollTimeout poll_def)
  next
    case True
    let ?c0 = "(calls s ! i)\<lparr>c_sleep := None, c_attempts := c_attempts (calls s ! i) + 1\<rparr>"
    have "sleeping_ok (calls s ! i)"
      using assms True by simp
    then have ok: "sleeping_ok (fst (wait_loop (mcpProcess s) (serverReady s) now rnd ?c0))"
      using True by (intro wait_loop_sleeping_ok) (auto simp: sleeping_ok_def)
    have "set ((calls s)[i := fst (wait_loop (mcpProcess s) (serverReady s) now rnd ?c0)])
            \<subseteq> insert (fst (wait_loop (mcpProcess s) (serverReady s) now rnd ?c0)) (set (calls s))"
      by (rule set_update_subset_insert)
    then show ?thesis
      using assms ok True
      by (auto simp: PollTimeout poll_def Let_def split: prod.splits)
  qed
next
  case (CallTimeout i)
  show ?thesis
  proof (cases "i < length (calls s) \<and> c_timeout (calls s ! i) \<noteq> None")
    case False
    then show ?thesis using assms by (auto simp: CallTimeout call_timeout_def)
  next
    case True
    then have "sleeping_ok (calls s ! i)"
      using assms by simp
    then have sl: "c_sleep (calls s ! i) = None"
      using True by (auto simp: sleeping_ok_def)
    show ?thesis
      using assms sl True
      by (auto simp: CallTimeout call_timeout_def Let_def sleeping_ok_def
            dest!: subsetD [OF set_update_subset_insert])
  qed
qed (use assms in \<open>auto simp: initializeMCPServer_def init_timeout_def Let_def split: list.splits\<close>)

lemma run_sleeping_ok:
  "\<forall>c \<in> set (calls s). sleeping_ok c \<Longrightarrow> \<forall>c \<in> set (calls (run parse evs s)). sleeping_ok c"
proof (induction evs arbitrary: s)
  case Nil
  then show ?case by simp
next
  case (Cons e es)
  show ?case
    using Cons.IH [OF step_sleeping_ok [OF Cons.prems, of parse e]] by simp
qed

lemma reachable_sleeping_ok:
  "i < length (calls (run parse evs startMCPServer)) \<Longrightarrow>
   sleeping_ok (calls (run parse evs startMCPServer) ! i)"
  using run_sleeping_ok [of startMCPServer parse evs] by (simp add: startMCPServer_def)

lemma poll_without_process:
  assumes "i < length (calls s)" "c_sleep (calls s ! i) \<noteq> None" "\<not> mcpProcess s"
  shows "calls (step parse (PollTimeout i now rnd) s) ! i =
           (calls s ! i)\<lparr>c_sleep := None, c_attempts := c_attempts (calls s ! i) + 1,
                          c_uncaught := Some TypeError\<rparr>"
  using assms by (simp add: poll_def wait_loop_def Let_def)

text \<open>
  C9. A call sleeps in the wait loop when the process closes, which sets \<open>mcpProcess\<close>
  to \<open>null\<close>. Whatever happens before the sleep ends, the next test of the loop calls
  \<open>isReady\<close> on \<open>null\<close>: the TypeError leaves the executor, nothing is written, and
  whatever happens afterwards the promise of the call stays pending.
\<close>

theorem poll_after_close_never_settles:
  assumes "i < length (calls (run parse pre startMCPServer))"
    and "c_sleep (calls (run parse pre startMCPServer) ! i) \<noteq> None"
    and "count_polls i mid = 0"
  shows "let s = run parse post
                   (step parse (PollTimeout i now rnd)
                      (run parse mid (step parse Close (run parse pre startMCPServer))));
             c = calls s ! i
         in c_promise c = Pending \<and> c_uncaught c = Some TypeError \<and> c_sleep c = None \<and>
            c_request_id c = None \<and> c_timeout c = None \<and> \<not> c_listening c"
proof -
  let ?s0 = "run parse pre startMCPServer"
  let ?s1 = "step parse Close ?s0"
  let ?s2 = "run parse mid ?s1"
  let ?s3 = "step parse (PollTimeout i now rnd) ?s2"
  have ok: "sleeping_ok (calls ?s0 ! i)"
    using reachable_sleeping_ok [OF assms(1)] .
  then have c0: "c_promise (calls ?s0 ! i) = Pending" "c_timeout (calls ?s0 ! i) = None"
      "\<not> c_listening (calls ?s0 ! i)" "c_request_id (calls ?s0 ! i) = None"
    using assms(2) by (auto simp: sleeping_ok_def)
  have c1: "calls ?s1 = calls ?s0" and p1: "\<not> mcpProcess ?s1"
    by simp_all
  have mid: "calls ?s2 ! i = calls ?s0 ! i \<and> i < length (calls ?s2)"
    using run_call_unchanged [of i ?s1 mid parse] assms(1,3) c0 c1 by simp
  have p2: "\<not> mcpProcess ?s2"
    using run_process [OF p1] .
  have c3: "calls ?s3 ! i =
      (calls ?s0 ! i)\<lparr>c_sleep := None, c_attempts := c_attempts (calls ?s0 ! i) + 1,
                       c_uncaught := Some TypeError\<rparr>"
    using poll_without_process [of i ?s2 parse now rnd] mid assms(2) p2 by simp
  have len3: "i < length (calls ?s3)"
    using mid step_calls_length [of ?s2 parse "PollTimeout i now rnd"] by simp
  have "calls (run parse post ?s3) ! i = calls ?s3 ! i"
    using run_call_unchanged [of i ?s3 post parse] len3 c3 c0 by simp
  then show ?thesis
    using c3 c0 by (simp add: Let_def)
qed

theorem poll_after_close_never_settles_witness:
  "(let s0 = run parse_sample [get_recent_emails 1700000000000 500] startMCPServer
    in 0 < length (calls s0) \<and> c_sleep (calls s0 ! 0) \<noteq> None) \<and>
   count_polls 0 [StderrData log_line] = 0 \<and>
   (let s = run parse_sample [CallTimeout 0, StdoutData (emails_ok @ [nl])]
              (step parse_sample (PollTimeout 0 1700000000500 500)
                 (run parse_sample [StderrData log_line]
                    (step parse_sample Close
                       (run parse_sample [get_recent_emails 1700000000000 500] startMCPServer))))
    in c_promise (calls s ! 0) = Pending \<and> c_uncaught (calls s ! 0) = Some TypeError)"
proof -
  have a: "0 < length (calls (run parse_sample [get_recent_emails 1700000000000 500] startMCPServer))"
    by (simp add: bridge_defs sample_defs)
  have b: "c_sleep (calls (run parse_sample [get_recent_emails 1700000000000 500] startMCPServer) ! 0) \<noteq> None"
    by (simp add: bridge_defs sample_defs)
  have c: "count_polls 0 [StderrData log_line] = 0"
    by (simp add: count_polls_def)
  show ?thesis
    using poll_after_close_never_settles [OF a b c, of "[CallTimeout 0, StdoutData (emails_ok @ [nl])]"
        1700000000500 500] a b c
    by (simp add: Let_def)
qed


section \<open>The listener of a call, chunk by chunk\<close>

lemma split_nl_not_Nil: "split_nl s \<noteq> []"
  by (induction s) (auto split: list.splits)

lemma split_nl_append:
  "split_nl (a @ b) = butlast (split_nl a) @ split_nl (last (split_nl a) @ b)"
proof (induction a)
  case Nil
  then show ?case by simp
next
  case (Cons c cs)
  show ?case
  proof (cases "c = nl")
    case True
    then show ?thesis using Cons split_nl_not_Nil [of cs] by simp
  next
    case False
    obtain l ls where sp: "split_nl cs = l # ls"
      using split_nl_not_Nil [of cs] by (cases "split_nl cs") auto
    show ?thesis
    proof (cases ls)
      case Nil
      then show ?thesis using Cons sp False by simp
    next
      case (Cons l' ls')
      then show ?thesis using Cons.IH sp False by simp
    qed
  qed
qed

lemma last_split_nl: "nl \<notin> set (last (split_nl s))"
proof (induction s)
  case Nil
  then show ?case by simp
next
  case (Cons c cs)
  obtain l ls where sp: "split_nl cs = l # ls"
    using split_nl_not_Nil [of cs] by (cases "split_nl cs") auto
  show ?case using Cons sp by (cases ls) auto
qed

lemma split_nl_line: "nl \<notin> set s \<Longrightarrow> split_nl s = [s]"
  by (induction s) auto

lemma complete_lines_append:
  shows "butlast (split_nl (a @ b)) =
           butlast (split_nl a) @ butlast (split_nl (last (split_nl a) @ b))"
    and "last (split_nl (a @ b)) = last (split_nl (last (split_nl a) @ b))"
  using split_nl_not_Nil [of "last (split_nl a) @ b"]
  by (simp_all add: split_nl_append [of a b] butlast_append)

lemma scan_append:
  "scan parse rid (xs @ ys) =
     (case scan parse rid xs of Some response \<Rightarrow> Some response | None \<Rightarrow> scan parse rid ys)"
  by (induction xs) (auto simp: Let_def split: option.splits)

lemma scan_Some:
  "scan parse rid ls = Some response \<Longrightarrow>
   field response ''id'' = Some (JNum rid) \<and> (\<exists>l \<in> set ls. parse (js_trim l) = Some response)"
  by (induction ls) (auto simp: Let_def split: option.splits if_splits)

lemma feed_complete: "c_isComplete c \<Longrightarrow> feed parse rid ds c = c"
  by (induction ds) (simp_all add: dataHandler_def)

text \<open>
  The listener of a call of the bridge, fed a stream in chunks: the call is settled by the
  first complete line of the whole stream that parses to a response with its id, however
  the stream is cut; until then the buffer is what follows the last newline.
\<close>

lemma feed_chunks:
  assumes "\<not> c_isComplete c" "nl \<notin> set (c_responseData c)"
  shows "case scan parse rid (butlast (split_nl (c_responseData c @ concat ds))) of
           Some response \<Rightarrow>
             c_isComplete (feed parse rid ds c) \<and> \<not> c_listening (feed parse rid ds c) \<and>
             c_promise (feed parse rid ds c) = settle (c_promise c) (respond response)
         | None \<Rightarrow>
             \<not> c_isComplete (feed parse rid ds c) \<and>
             c_promise (feed parse rid ds c) = c_promise c \<and>
             c_responseData (feed parse rid ds c) = last (split_nl (c_responseData c @ concat ds))"
  using assms
proof (induction ds arbitrary: c)
  case Nil
  then show ?case by (simp add: split_nl_line)
next
  case (Cons d ds)
  let ?buf = "c_responseData c @ d"
  show ?case
  proof (cases "scan parse rid (butlast (split_nl ?buf))")
    case (Some response)
    then have fin: "c_isComplete (dataHandler parse rid d c)"
      and res: "c_promise (dataHandler parse rid d c) = settle (c_promise c) (respond response)"
      and ls: "\<not> c_listening (dataHandler parse rid d c)"
      using Cons.prems(1) by (simp_all add: dataHandler_def Let_def)
    have "scan parse rid (butlast (split_nl (c_responseData c @ concat (d # ds)))) = Some response"
      using Some complete_lines_append(1) [of ?buf "concat ds"] by (simp add: scan_append)
    then show ?thesis
      using feed_complete [OF fin, of parse rid ds] fin res ls by simp
  next
    case None
    then have open_: "\<not> c_isComplete (dataHandler parse rid d c)"
      and res: "c_promise (dataHandler parse rid d c) = c_promise c"
      and buf: "c_responseData (dataHandler parse rid d c) = last (split_nl ?buf)"
      using Cons.prems(1) by (simp_all add: dataHandler_def Let_def)
    have sc: "scan parse rid (butlast (split_nl (c_responseData c @ concat (d # ds)))) =
          scan parse rid (butlast (split_nl (last (split_nl ?buf) @ concat ds)))"
      using None complete_lines_append(1) [of ?buf "concat ds"] by (simp add: scan_append)
    have la: "last (split_nl (c_responseData c @ concat (d # ds))) =
          last (split_nl (last (split_nl ?buf) @ concat ds))"
      using complete_lines_append(2) [of ?buf "concat ds"] by simp
    show ?thesis
      using Cons.IH [OF open_] res buf sc la last_split_nl [of ?buf]
      by (simp split: option.splits)
  qed
qed


lemma feed_chunking:
  assumes "\<not> c_isComplete c" "nl \<notin> set (c_responseData c)" "concat ds = concat ds'"
  shows "c_promise (feed parse rid ds c) = c_promise (feed parse rid ds' c)"
  using feed_chunks [OF assms(1,2), of parse rid ds] feed_chunks [OF assms(1,2), of parse rid ds']
    assms(3)
  by (simp split: option.splits)

text \<open>
  With the process there, the timer of a pending call rejects it and removes its
  listener; no other call changes, and a later chunk does not reach the call.
\<close>

lemma call_timeout_live:
  assumes "mcpProcess s" "i < length (calls s)" "c_timeout (calls s ! i) \<noteq> None"
    and "\<not> c_isComplete (calls s ! i)" "c_promise (calls s ! i) = Pending"
  shows "c_promise (calls (step parse (CallTimeout i) s) ! i) = Rejected (Error ''MCP call timeout'')"
    and "\<not> c_listening (calls (step parse (CallTimeout i) s) ! i)"
    and "j \<noteq> i \<Longrightarrow> calls (step parse (CallTimeout i) s) ! j = calls s ! j"
    and "calls (step parse (StdoutData data) (step parse (CallTimeout i) s)) ! i =
           calls (step parse (CallTimeout i) s) ! i"
  using assms
  by (auto simp: call_timeout_def stdout_data_def call_data_def settle_def Let_def
        split: prod.splits option.splits)


section \<open>The end of the process\<close>

text \<open>
  C2. When the process ends while calls are pending, every pending call is to fail with
  a process-terminated error and the pending set is to be empty. The bridge has no such
  error and no pending set: its \<open>close\<close> listener sets \<open>mcpProcess\<close> to \<open>null\<close> and
  nothing else, so that every call is as it was, a pending one still pending with its
  listener and its timer.
\<close>


theorem close_only_clears_process:
  "let s' = step parse Close s
   in \<not> mcpProcess s' \<and> calls s' = calls s \<and> handshakes s' = handshakes s \<and>
      stdin s' = stdin s \<and> serverReady s' = serverReady s \<and> bannerTimers s' = bannerTimers s"
  by simp

text \<open>One call is pending when the process ends: it is not failed.\<close>

theorem close_leaves_call_pending:
  "let c = calls (run parse_sample
                   (ready_trace @ [get_recent_emails 1700000000000 500, Close])
                   startMCPServer) ! 0
   in c_promise c = Pending \<and> c_listening c \<and> c_timeout c = Some 45000"
  by (simp add: bridge_defs sample_defs)

section \<open>Readiness and the banner\<close>

lemma run_append: "run parse (a @ b) s = run parse b (run parse a s)"
  by (induction a arbitrary: s) simp_all

text \<open>Only a stdout chunk sets \<open>serverReady\<close>.\<close>

lemma step_ready_data:
  "\<not> serverReady s \<Longrightarrow> serverReady (step parse e s) \<Longrightarrow> \<exists>data. e = StdoutData data"
  by (cases e)
     (auto simp: initializeMCPServer_def init_timeout_def callMCPTool_def poll_def
        call_timeout_def Let_def split: prod.splits list.splits if_splits)

lemma ready_data_seen:
  "\<not> serverReady s \<Longrightarrow> serverReady (run parse evs s) \<Longrightarrow> data_seen evs"
proof (induction evs arbitrary: s)
  case Nil
  then show ?case by simp
next
  case (Cons e es)
  show ?case
  proof (cases "serverReady (step parse e s)")
    case True
    then show ?thesis using step_ready_data [OF Cons.prems(1) True] by auto
  next
    case False
    then have "data_seen es" using Cons.IH Cons.prems(2) by simp
    then show ?thesis by (cases e) simp_all
  qed
qed

text \<open>Only a handshake that listens with a pending promise can set it.\<close>

lemma in_set_updateD: "x \<in> set (xs[i := y]) \<Longrightarrow> x = y \<or> x \<in> set xs"
  using set_update_subset_insert [of xs i y] by auto

lemma settle_Pending: "settle p q = Pending \<longleftrightarrow> p = Pending \<and> q = Pending"
  by (auto simp: settle_def)

lemma init_handlers_idle:
  assumes "\<forall>h \<in> set hs. \<not> (h_listening h \<and> h_promise h = Pending)"
  shows "\<not> snd (snd (init_handlers parse data hs)) \<and>
         (\<forall>h \<in> set (fst (init_handlers parse data hs)). \<not> (h_listening h \<and> h_promise h = Pending))"
  using assms
  by (induction hs)
     (auto simp: init_dataHandler_def Let_def settle_Pending split: prod.splits if_splits)

lemma step_idle_handshakes:
  assumes "\<forall>h \<in> set (handshakes s). \<not> (h_listening h \<and> h_promise h = Pending)"
    and "\<not> serverReady s" and "e \<noteq> BannerTimeout"
  shows "(\<forall>h \<in> set (handshakes (step parse e s)). \<not> (h_listening h \<and> h_promise h = Pending)) \<and>
         \<not> serverReady (step parse e s)"
proof (cases e)
  case (StdoutData data)
  show ?thesis
    using init_handlers_idle [OF assms(1), of parse data] assms(1,2)
    by (auto simp: StdoutData stdout_data_def split: prod.splits)
next
  case (InitTimeout i)
  show ?thesis
    using assms(1,2)
    by (auto simp: InitTimeout init_timeout_def Let_def settle_Pending dest!: in_set_updateD)
qed (use assms in \<open>auto simp: callMCPTool_def poll_def call_timeout_def Let_def split: prod.splits\<close>)

lemma ready_timer_data_seen:
  assumes "\<forall>h \<in> set (handshakes s). \<not> (h_listening h \<and> h_promise h = Pending)"
    and "\<not> serverReady s" and "serverReady (run parse evs s)"
  shows "timer_data_seen evs"
  using assms
proof (induction evs arbitrary: s)
  case Nil
  then show ?case by simp
next
  case (Cons e es)
  show ?case
  proof (cases "e = BannerTimeout")
    case True
    have "\<not> serverReady (step parse e s)"
      using Cons.prems(2) step_ready_data [of s parse e] True by auto
    then have "data_seen es"
      using ready_data_seen [of "step parse e s" parse es] Cons.prems(3) by simp
    then show ?thesis using True by simp
  next
    case False
    note st = step_idle_handshakes [OF Cons.prems(1,2) False, of parse]
    have "timer_data_seen es"
      using Cons.IH [of "step parse e s"] st Cons.prems(3) by simp
    then show ?thesis using False by simp
  qed
qed

lemma step_no_timers:
  "bannerTimers s = [] \<Longrightarrow> \<not> is_banner e \<Longrightarrow>
   bannerTimers (step parse e s) = [] \<and> (e = BannerTimeout \<longrightarrow> step parse e s = s)"
  by (cases e)
     (auto simp: stdout_data_def init_timeout_def callMCPTool_def poll_def
        call_timeout_def Let_def split: prod.splits)

lemma ready_banner_timer_data_seen:
  assumes "bannerTimers s = []"
    and "\<forall>h \<in> set (handshakes s). \<not> (h_listening h \<and> h_promise h = Pending)"
    and "\<not> serverReady s" and "serverReady (run parse evs s)"
  shows "banner_timer_data_seen evs"
  using assms
proof (induction evs arbitrary: s)
  case Nil
  then show ?case by simp
next
  case (Cons e es)
  show ?case
  proof (cases "is_banner e")
    case True
    then have nb: "e \<noteq> BannerTimeout" by auto
    note st = step_idle_handshakes [OF Cons.prems(2,3) nb, of parse]
    have "timer_data_seen es"
      using ready_timer_data_seen [of "step parse e s" parse es] st Cons.prems(4) by simp
    then show ?thesis using True by simp
  next
    case False
    note tm = step_no_timers [OF Cons.prems(1) False, of parse]
    have keep: "(\<forall>h \<in> set (handshakes (step parse e s)). \<not> (h_listening h \<and> h_promise h = Pending)) \<and>
         \<not> serverReady (step parse e s)"
    proof (cases "e = BannerTimeout")
      case True
      then show ?thesis using tm Cons.prems(2,3) by simp
    next
      case False
      then show ?thesis using step_idle_handshakes [OF Cons.prems(2,3) False, of parse] by simp
    qed
    have "banner_timer_data_seen es"
      using Cons.IH [of "step parse e s"] tm keep Cons.prems(4) by simp
    then show ?thesis using False by simp
  qed
qed

text \<open>\<open>serverReady\<close> is set by the resolution of a handshake.\<close>

lemma init_handlers_resolved:
  assumes "filter (\<lambda>h. h_promise h = Resolved None) hs \<noteq> [] \<or> snd (snd (init_handlers parse data hs))"
  shows "filter (\<lambda>h. h_promise h = Resolved None) (fst (init_handlers parse data hs)) \<noteq> []"
  using assms
  by (induction hs)
     (auto simp: init_dataHandler_def settle_def Let_def split: prod.splits if_splits)

lemma filter_update_resolved:
  assumes "filter (\<lambda>h. h_promise h = Resolved None) hs \<noteq> []"
    and "h_promise (hs ! i) = Resolved None \<longrightarrow> h_promise h = Resolved None"
  shows "filter (\<lambda>h. h_promise h = Resolved None) (hs[i := h]) \<noteq> []"
proof -
  obtain j where j: "j < length hs" "h_promise (hs ! j) = Resolved None"
    using assms(1) by (auto simp: filter_empty_conv in_set_conv_nth)
  have "h_promise (hs[i := h] ! j) = Resolved None"
    using j assms(2) by (cases "i = j") auto
  then show ?thesis
    using j(1) by (auto simp: filter_empty_conv in_set_conv_nth intro!: exI [of _ j])
qed

lemma step_handshake_resolved:
  assumes "serverReady s \<longrightarrow> handshake_resolved s"
  shows "serverReady (step parse e s) \<longrightarrow> handshake_resolved (step parse e s)"
proof (cases e)
  case (StdoutData data)
  show ?thesis
    using assms init_handlers_resolved [of "handshakes s" parse data]
    by (auto simp: StdoutData stdout_data_def handshake_resolved_def split: prod.splits)
next
  case (InitTimeout i)
  show ?thesis
  proof (cases "i < length (handshakes s) \<and> h_timeout (handshakes s ! i) \<noteq> None")
    case False
    then show ?thesis using assms by (auto simp: InitTimeout init_timeout_def)
  next
    case True
    let ?h = "(handshakes s ! i)\<lparr>h_timeout := None,
        h_promise := settle (h_promise (handshakes s ! i)) (Rejected (Error ''MCP initialization timeout''))\<rparr>"
    have st: "step parse e s = s\<lparr>handshakes := (handshakes s)[i := ?h]\<rparr>"
      using True by (simp add: InitTimeout init_timeout_def Let_def)
    have keep: "h_promise (handshakes s ! i) = Resolved None \<longrightarrow> h_promise ?h = Resolved None"
      by (simp add: settle_def)
    show ?thesis
    proof
      assume "serverReady (step parse e s)"
      then have "filter (\<lambda>h. h_promise h = Resolved None) (handshakes s) \<noteq> []"
        using assms st by (simp add: handshake_resolved_def)
      then show "handshake_resolved (step parse e s)"
        using filter_update_resolved [OF _ keep] st by (simp add: handshake_resolved_def)
    qed
  qed
qed (use assms in \<open>auto simp: initializeMCPServer_def callMCPTool_def poll_def call_timeout_def
       handshake_resolved_def Let_def split: prod.splits list.splits\<close>)

lemma run_handshake_resolved:
  "serverReady s \<longrightarrow> handshake_resolved s \<Longrightarrow>
   serverReady (run parse evs s) \<longrightarrow> handshake_resolved (run parse evs s)"
proof (induction evs arbitrary: s)
  case Nil
  then show ?case by simp
next
  case (Cons e es)
  show ?case
    using Cons.IH [OF step_handshake_resolved [OF Cons.prems, of parse e]] by simp
qed

text \<open>Without a banner nothing starts a handshake.\<close>

lemma step_quiet:
  assumes "\<not> serverReady s" "bannerTimers s = []" "handshakes s = []" "stdin s = []"
    and "\<not> is_banner e"
  shows "\<not> serverReady (step parse e s) \<and> bannerTimers (step parse e s) = [] \<and>
         handshakes (step parse e s) = [] \<and> stdin (step parse e s) = []"
  using assms
  by (cases e)
     (auto simp: stdout_data_def init_timeout_def callMCPTool_def poll_def wait_loop_def
        call_timeout_def Let_def split: prod.splits)

lemma step_keeps_process: "mcpProcess s \<Longrightarrow> e \<noteq> Close \<Longrightarrow> mcpProcess (step parse e s)"
  by (cases e)
     (auto simp: stdout_data_def initializeMCPServer_def init_timeout_def callMCPTool_def
        poll_def call_timeout_def Let_def split: prod.splits list.splits)

lemma run_quiet:
  assumes "\<not> serverReady s" "bannerTimers s = []" "handshakes s = []" "stdin s = []"
    and "no_banner evs"
  shows "\<not> serverReady (run parse evs s) \<and> stdin (run parse evs s) = []"
  using assms
proof (induction evs arbitrary: s)
  case Nil
  then show ?case by simp
next
  case (Cons e es)
  have nb: "\<not> is_banner e" and rest: "no_banner es"
    using Cons.prems(5) by (auto simp: no_banner_def split: if_splits)
  note q = step_quiet [OF Cons.prems(1-4) nb, of parse]
  show ?case
    using Cons.IH [of "step parse e s"] q rest by simp
qed

lemma run_never_ready:
  assumes "\<not> serverReady s" "bannerTimers s = []" "handshakes s = []" "stdin s = []"
    and "mcpProcess s" "no_banner evs" "no_close evs"
  shows "never_ready parse evs s"
  using assms
proof (induction evs arbitrary: s)
  case Nil
  then show ?case by simp
next
  case (Cons e es)
  have nb: "\<not> is_banner e" and rest: "no_banner es"
    using Cons.prems(6) by (auto simp: no_banner_def split: if_splits)
  have nc: "e \<noteq> Close" and rest': "no_close es"
    using Cons.prems(7) by (auto simp: no_close_def split: if_splits)
  note q = step_quiet [OF Cons.prems(1-4) nb, of parse]
  note p = step_keeps_process [OF Cons.prems(5) nc, of parse]
  show ?case
    using Cons.IH [of "step parse e s"] q p rest rest' Cons.prems(1,5) by simp
qed

lemma never_ready_append:
  "never_ready parse (a @ b) s \<Longrightarrow> never_ready parse b (run parse a s)"
  by (induction a arbitrary: s) simp_all

text \<open>
  C10. \<open>serverReady\<close> is set only after a stderr chunk that passes the banner test,
  then a banner timer (2000 ms), then a stdout chunk, in this order, and only with a
  handshake resolved; without such a chunk
  on stderr the bridge is never ready and writes nothing, whatever arrives on stdout. A
  call made then, in a run in which the process does not close, stays suspended for
  fewer than 15 ends of its sleep and is rejected with the not-ready error from the
  fifteenth on, without a request. A call made when \<open>mcpProcess\<close> is \<open>null\<close> is rejected
  at once with \<open>MCP server not running\<close>, without sleeping.
\<close>


theorem ready_needs_banner:
  "(serverReady (run parse evs startMCPServer) \<longrightarrow>
      banner_timer_data_seen evs \<and> handshake_resolved (run parse evs startMCPServer)) \<and>
   (no_banner evs \<longrightarrow>
      \<not> serverReady (run parse evs startMCPServer) \<and> stdin (run parse evs startMCPServer) = []) \<and>
   (no_banner (pre @ CallMCPTool name args now rnd # post) \<and>
    no_close (pre @ CallMCPTool name args now rnd # post) \<longrightarrow>
      (let i = length (calls (run parse pre startMCPServer));
           c = calls (run parse (pre @ CallMCPTool name args now rnd # post) startMCPServer) ! i;
           k = count_polls i post
       in c_request_id c = None \<and> c_attempts c = min k maxAttempts \<and>
          c_promise c =
            (if k < maxAttempts then Pending
             else Rejected (Error ''MCP server not ready - timeout waiting for initialization'')))) \<and>
   (\<not> mcpProcess s \<longrightarrow>
      (let c = calls (step parse (CallMCPTool name args now rnd) s) ! length (calls s)
       in c_promise c = Rejected (Error ''MCP server not running'') \<and> c_attempts c = 0 \<and>
          c_sleep c = None \<and> stdin (step parse (CallMCPTool name args now rnd) s) = stdin s))"
proof (intro conjI impI)
  assume "serverReady (run parse evs startMCPServer)"
  then show "banner_timer_data_seen evs"
    using ready_banner_timer_data_seen [of startMCPServer parse evs]
    by (simp add: startMCPServer_def)
next
  assume "serverReady (run parse evs startMCPServer)"
  then show "handshake_resolved (run parse evs startMCPServer)"
    using run_handshake_resolved [of startMCPServer parse evs]
    by (simp add: startMCPServer_def)
next
  assume "no_banner evs"
  then show "\<not> serverReady (run parse evs startMCPServer)"
    and "stdin (run parse evs startMCPServer) = []"
    using run_quiet [of startMCPServer evs parse] by (simp_all add: startMCPServer_def)
next
  let ?evs = "pre @ CallMCPTool name args now rnd # post"
  assume h: "no_banner ?evs \<and> no_close ?evs"
  then have "never_ready parse ?evs startMCPServer"
    using run_never_ready [of startMCPServer ?evs parse] by (simp add: startMCPServer_def)
  then have "never_ready parse (CallMCPTool name args now rnd # post) (run parse pre startMCPServer)"
    by (rule never_ready_append)
  then have "never_ready parse post
               (step parse (CallMCPTool name args now rnd) (run parse pre startMCPServer))"
    by simp
  then show "let i = length (calls (run parse pre startMCPServer));
           c = calls (run parse ?evs startMCPServer) ! i;
           k = count_polls i post
       in c_request_id c = None \<and> c_attempts c = min k maxAttempts \<and>
          c_promise c =
            (if k < maxAttempts then Pending
             else Rejected (Error ''MCP server not ready - timeout waiting for initialization''))"
    using call_while_unready [of parse post name args now rnd "run parse pre startMCPServer"]
    by (simp add: Let_def run_append)
next
  assume "\<not> mcpProcess s"
  then show "let c = calls (step parse (CallMCPTool name args now rnd) s) ! length (calls s)
       in c_promise c = Rejected (Error ''MCP server not running'') \<and> c_attempts c = 0 \<and>
          c_sleep c = None \<and> stdin (step parse (CallMCPTool name args now rnd) s) = stdin s"
    by (simp add: callMCPTool_def new_call_def)
qed

theorem ready_needs_banner_witness:
  "serverReady (run parse_sample ready_trace startMCPServer) \<and>
   banner_timer_data_seen ready_trace \<and>
   handshake_resolved (run parse_sample ready_trace startMCPServer) \<and>
   no_banner ([StdoutData (init_ok @ [nl])] @ get_recent_emails 1700000000000 500 # fifteen_polls) \<and>
   no_close ([StdoutData (init_ok @ [nl])] @ get_recent_emails 1700000000000 500 # fifteen_polls) \<and>
   \<not> serverReady (run parse_sample
       ([StdoutData (init_ok @ [nl])] @ get_recent_emails 1700000000000 500 # fifteen_polls)
       startMCPServer) \<and>
   c_promise (calls (run parse_sample
       ([StdoutData (init_ok @ [nl])] @ get_recent_emails 1700000000000 500 # fifteen_polls)
       startMCPServer) ! 0) =
     Rejected (Error ''MCP server not ready - timeout waiting for initialization'') \<and>
   \<not> mcpProcess (step parse_sample Close startMCPServer) \<and>
   c_promise (calls (step parse_sample (get_recent_emails 1700000000000 500)
       (step parse_sample Close startMCPServer)) ! 0) = Rejected (Error ''MCP server not running'')"
proof -
  let ?evs = "[StdoutData (init_ok @ [nl])] @
      CallMCPTool ''get_recent_emails'' (JObj [(''maxResults'', JNum 50)]) 1700000000000 500 #
      fifteen_polls"
  have r: "serverReady (run parse_sample ready_trace startMCPServer)"
    by (simp add: bridge_defs sample_defs)
  have nb: "no_banner ?evs"
    by (simp add: no_banner_def fifteen_polls_def)
  have nc: "no_close ?evs"
    by (simp add: no_close_def fifteen_polls_def)
  have k: "count_polls 0 fifteen_polls = 15"
    by (simp add: count_polls_def fifteen_polls_def)
  have z: "length (calls (run parse_sample [StdoutData (init_ok @ [nl])] startMCPServer)) = 0"
    by (simp add: bridge_defs)
  have p: "\<not> mcpProcess (step parse_sample Close startMCPServer)"
    by simp
  have z': "length (calls (step parse_sample Close startMCPServer)) = 0"
    by (simp add: startMCPServer_def)
  note a = ready_needs_banner [of parse_sample ready_trace "[StdoutData (init_ok @ [nl])]"
      "''get_recent_emails''" "JObj [(''maxResults'', JNum 50)]" 1700000000000 500
      fifteen_polls "step parse_sample Close startMCPServer"]
  note b = ready_needs_banner [of parse_sample ?evs "[StdoutData (init_ok @ [nl])]"
      "''get_recent_emails''" "JObj [(''maxResults'', JNum 50)]" 1700000000000 500
      fifteen_polls "step parse_sample Close startMCPServer"]
  show ?thesis
    using a b r nb nc p
    unfolding Let_def z z' k get_recent_emails_def
    by (simp add: maxAttempts_def)
qed

text \<open>
  Without a banner, a call made after the process has closed is rejected at once, not
  after the polling bound, and a call asleep when the process closes is never rejected.
\<close>


theorem no_banner_call_not_polled:
  "no_banner [Close, get_recent_emails 1700000000000 500] \<and>
   (let c = calls (run parse_sample [Close, get_recent_emails 1700000000000 500]
                    startMCPServer) ! 0
    in c_promise c = Rejected (Error ''MCP server not running'') \<and> c_attempts c = 0) \<and>
   no_banner [get_recent_emails 1700000000000 500, Close, PollTimeout 0 1700000000500 500] \<and>
   (let c = calls (run parse_sample
                    [get_recent_emails 1700000000000 500, Close,
                     PollTimeout 0 1700000000500 500] startMCPServer) ! 0
    in c_promise c = Pending \<and> c_sleep c = None \<and> c_uncaught c = Some TypeError)"
  by (simp add: bridge_defs sample_defs no_banner_def)

end
